theory Spec2Isabelle
  imports Main
begin

section \<open>Strings and paths\<close>

text \<open>
  JavaScript strings are modelled as \<open>string\<close> (lists of 8-bit characters), which covers
  the ASCII range that the comparisons of \<^verbatim>\<open>lib/injector.js\<close> look at.
  \<^verbatim>\<open>String.prototype.startsWith\<close>, \<^verbatim>\<open>endsWith\<close> and \<^verbatim>\<open>toLowerCase\<close> are the
  library functions the source calls.
\<close>

definition startsWith :: "string \<Rightarrow> string \<Rightarrow> bool" where
  "startsWith s p = (take (length p) s = p)"

definition endsWith :: "string \<Rightarrow> string \<Rightarrow> bool" where
  "endsWith s p = (length p \<le> length s \<and> drop (length s - length p) s = p)"

definition lowerChar :: "char \<Rightarrow> char" where
  "lowerChar ch =
     (case map_of (zip ''ABCDEFGHIJKLMNOPQRSTUVWXYZ'' ''abcdefghijklmnopqrstuvwxyz'') ch of
        Some l \<Rightarrow> l
      | None \<Rightarrow> ch)"

definition toLowerCase :: "string \<Rightarrow> string" where
  "toLowerCase s = map lowerChar s"

text \<open>A JavaScript string is truthy iff it is not empty.\<close>

definition truthy :: "string \<Rightarrow> bool" where
  "truthy s = (s \<noteq> [])"

text \<open>
  Node's POSIX \<^verbatim>\<open>path.basename\<close>: trailing separators are dropped, then the part after
  the last separator is returned.
\<close>

definition basename :: "string \<Rightarrow> string" where
  "basename p =
     rev (takeWhile (\<lambda>ch. ch \<noteq> CHR ''/'') (dropWhile (\<lambda>ch. ch = CHR ''/'') (rev p)))"

text \<open>
  Node's POSIX \<^verbatim>\<open>path.extname\<close>: the text from the last dot of the last path component
  to its end; empty when that component has no dot, when its only dot is its first
  character, or when the component is \<^verbatim>\<open>..\<close>.
\<close>

definition extname :: "string \<Rightarrow> string" where
  "extname p =
     (let b = basename p;
          tail = takeWhile (\<lambda>ch. ch \<noteq> CHR ''.'') (rev b)
      in if CHR ''.'' \<notin> set b then []
         else let startDot = length b - length tail - 1
              in if startDot = 0 then []
                 else if b = ''..'' then []
                 else drop startDot b)"

text \<open>
  \<^verbatim>\<open>path.join(dirPath, item)\<close> for a directory entry name \<open>item\<close> (not empty, no
  separator, neither \<^verbatim>\<open>.\<close> nor \<^verbatim>\<open>..\<close>): the entry name follows a separator.
\<close>

definition path_join :: "string \<Rightarrow> string \<Rightarrow> string" where
  "path_join dirPath item = dirPath @ ''/'' @ item"

section \<open>Favicon options\<close>

text \<open>
  The \<^verbatim>\<open>options\<close> argument of \<^verbatim>\<open>injectFavicon\<close> and \<^verbatim>\<open>injectDir\<close>: left out
  (\<^verbatim>\<open>undefined\<close>, so that the default parameter \<^verbatim>\<open>'/favicon.ico'\<close> applies), a bare
  string, or an object whose four keys are each present with a string or absent.
\<close>

record optionsObject =
  opt_path :: "string option"
  opt_rel :: "string option"
  opt_type :: "string option"
  opt_sizes :: "string option"

datatype optionsArg = Undefined | Str string | Obj optionsObject

text \<open>The normalised \<^verbatim>\<open>faviconOptions\<close> object; \<^verbatim>\<open>null\<close> is \<open>None\<close>.\<close>

record faviconOptions =
  path :: string
  rel :: string
  ftype :: "string option"
  sizes :: "string option"

text \<open>
  Lines 33 and 49--51: the default parameter, then a string becomes \<^verbatim>\<open>{ path: options }\<close>.
\<close>

definition toObject :: "optionsArg \<Rightarrow> optionsObject" where
  "toObject options =
     (case options of
        Undefined \<Rightarrow> \<lparr>opt_path = Some ''/favicon.ico'', opt_rel = None, opt_type = None, opt_sizes = None\<rparr>
      | Str s \<Rightarrow> \<lparr>opt_path = Some s, opt_rel = None, opt_type = None, opt_sizes = None\<rparr>
      | Obj ob \<Rightarrow> ob)"

text \<open>
  Lines 54--60: the defaults, overridden by every key that is present in \<^verbatim>\<open>options\<close>
  (object spread copies a present key whatever its value).
\<close>

definition withDefaults :: "optionsObject \<Rightarrow> faviconOptions" where
  "withDefaults ob =
     \<lparr>path = (case opt_path ob of Some p \<Rightarrow> p | None \<Rightarrow> ''/favicon.ico''),
      rel = (case opt_rel ob of Some r \<Rightarrow> r | None \<Rightarrow> ''icon''),
      ftype = opt_type ob,
      sizes = opt_sizes ob\<rparr>"

text \<open>Lines 65--80: the \<^verbatim>\<open>switch\<close> on the extension; no \<^verbatim>\<open>default\<close> branch.\<close>

definition mimeOfExt :: "string \<Rightarrow> string option" where
  "mimeOfExt ext =
     (if ext = ''.ico'' then Some ''image/x-icon''
      else if ext = ''.png'' then Some ''image/png''
      else if ext = ''.svg'' then Some ''image/svg+xml''
      else if ext = ''.jpg'' \<or> ext = ''.jpeg'' then Some ''image/jpeg''
      else None)"

definition isSet :: "string option \<Rightarrow> bool" where
  "isSet v = (case v of None \<Rightarrow> False | Some s \<Rightarrow> truthy s)"

text \<open>Lines 62--81: auto-detection of the MIME type when \<^verbatim>\<open>type\<close> is falsy.\<close>

definition detectType :: "faviconOptions \<Rightarrow> faviconOptions" where
  "detectType fo =
     (if \<not> isSet (ftype fo)
      then (let ext = toLowerCase (extname (path fo))
            in case mimeOfExt ext of
                 Some m \<Rightarrow> fo\<lparr>ftype := Some m\<rparr>
               | None \<Rightarrow> fo)
      else fo)"

definition normalizeOptions :: "optionsArg \<Rightarrow> faviconOptions" where
  "normalizeOptions options = detectType (withDefaults (toObject options))"

text \<open>Lines 104--114: the link tag, built by successive concatenation.\<close>

definition buildLinkTag :: "faviconOptions \<Rightarrow> string" where
  "buildLinkTag fo =
     (let linkTag = ''<link rel=\"'' @ rel fo @ ''\" href=\"'' @ path fo @ ''\"'';
          linkTag = (case ftype fo of
                       Some t \<Rightarrow> if truthy t then linkTag @ '' type=\"'' @ t @ ''\"'' else linkTag
                     | None \<Rightarrow> linkTag);
          linkTag = (case sizes fo of
                       Some z \<Rightarrow> if truthy z then linkTag @ '' sizes=\"'' @ z @ ''\"'' else linkTag
                     | None \<Rightarrow> linkTag)
      in linkTag @ ''>'')"

section \<open>The parsed document\<close>

text \<open>
  The tree that \<^verbatim>\<open>cheerio.load\<close> hands back: elements with a tag name, attributes in
  source order and children; every other kind of node (text, comment, doctype) is \<open>Text\<close>.
  A document is the list of the root's children.
\<close>

datatype dnode =
  Element (tagName: string) (attribs: "(string \<times> string) list") (childNodes: "dnode list")
| Text string

type_synonym document = "dnode list"

text \<open>\<^verbatim>\<open>$(tag)\<close>: every element of that name, in document order.\<close>

fun selectNode :: "string \<Rightarrow> dnode \<Rightarrow> dnode list" where
  "selectNode t (Element n a cs) =
     (if n = t then [Element n a cs] else []) @ concat (map (selectNode t) cs)"
| "selectNode t (Text s) = []"

definition select :: "string \<Rightarrow> document \<Rightarrow> dnode list" where
  "select t d = concat (map (selectNode t) d)"

text \<open>\<^verbatim>\<open>.attr(name)\<close>: the attribute's value, \<^verbatim>\<open>undefined\<close> (\<open>None\<close>) when it is absent.\<close>

fun attr :: "dnode \<Rightarrow> string \<Rightarrow> string option" where
  "attr (Element n a cs) k = map_of a k"
| "attr (Text s) k = None"

text \<open>
  \<^verbatim>\<open>$(tag).append(nodes)\<close>: the new nodes become the last children of every selected
  element.
\<close>

fun appendNode :: "string \<Rightarrow> dnode list \<Rightarrow> dnode \<Rightarrow> dnode" where
  "appendNode t new (Element n a cs) =
     Element n a (map (appendNode t new) cs @ (if n = t then new else []))"
| "appendNode t new (Text s) = Text s"

definition appendTo :: "string \<Rightarrow> dnode list \<Rightarrow> document \<Rightarrow> document" where
  "appendTo t new d = map (appendNode t new) d"

text \<open>
  The HTML library itself is not part of the repository; its three entry points are
  parameters of the model: \<^verbatim>\<open>cheerio.load\<close> (\<open>None\<close> when it throws), \<^verbatim>\<open>$.html()\<close>
  and the parsing of a markup string handed to \<^verbatim>\<open>append\<close>.
\<close>

record cheerio =
  load :: "string \<Rightarrow> document option"
  html :: "document \<Rightarrow> string"
  parseFragment :: "string \<Rightarrow> dnode list"

text \<open>
  Lines 12--21. The loop returns its verdict together with the value of \<^verbatim>\<open>i\<close> at the
  moment it returns.
\<close>

definition relMatches :: "string option \<Rightarrow> bool" where
  "relMatches r =
     (isSet r \<and> (r = Some ''icon'' \<or> r = Some ''shortcut icon'' \<or> r = Some ''apple-touch-icon''))"

function hasFaviconLoop :: "dnode list \<Rightarrow> nat \<Rightarrow> bool \<times> nat" where
  "hasFaviconLoop links i =
     (if i < length links
      then (let r = attr (links ! i) ''rel''
            in if relMatches r then (True, i) else hasFaviconLoop links (i + 1))
      else (False, i))"
  by pat_completeness auto
termination
  by (relation "measure (\<lambda>(links, i). length links - i)") auto

declare hasFaviconLoop.simps [simp del]

definition hasFavicon :: "document \<Rightarrow> bool" where
  "hasFavicon d = fst (hasFaviconLoop (select ''link'' d) 0)"

section \<open>The file system\<close>

text \<open>
  What a path resolves to. A regular file carries its text, whether it can be read, and
  what a write to it does; a directory carries whether it can be listed and its entries
  (distinct names, in listing order). \<open>Special\<close> is a device, socket or pipe; \<open>Missing\<close> is a
  path that \<^verbatim>\<open>stat\<close> cannot resolve (no such file, or a dangling link that a listing
  still names). The model passes the subtree at a path explicitly: no two paths share a
  file.
\<close>

datatype writeMode = WriteOk | WriteDenied | WriteTorn nat

datatype node =
  File (content: string) (readable: bool) (writeMode: writeMode)
| Dir (listable: bool) (entries: "(string \<times> node) list")
| Special
| Missing

datatype error =
  StatError | ReaddirError | ReadError | WriteError | ParseError | DirectoryDoesNotExist

datatype kind = IsFile | IsDirectory | IsOther

definition fs_stat :: "node \<Rightarrow> error + kind" where
  "fs_stat fs =
     (case fs of
        File ct r w \<Rightarrow> Inr IsFile
      | Dir l es \<Rightarrow> Inr IsDirectory
      | Special \<Rightarrow> Inr IsOther
      | Missing \<Rightarrow> Inl StatError)"

definition fs_pathExists :: "node \<Rightarrow> bool" where
  "fs_pathExists fs = (fs \<noteq> Missing)"

definition fs_readdir :: "node \<Rightarrow> error + (string \<times> node) list" where
  "fs_readdir fs =
     (case fs of
        Dir l es \<Rightarrow> if l then Inr es else Inl ReaddirError
      | _ \<Rightarrow> Inl ReaddirError)"

definition fs_readFile :: "node \<Rightarrow> error + string" where
  "fs_readFile fs =
     (case fs of
        File ct r w \<Rightarrow> if r then Inr ct else Inl ReadError
      | _ \<Rightarrow> Inl ReadError)"

text \<open>
  \<^verbatim>\<open>fs.writeFile\<close> replaces the whole content. It is not atomic: it can fail before
  touching the file (\<open>WriteDenied\<close>) or after writing only the first \<open>n\<close> characters
  (\<open>WriteTorn n\<close>, a full disk).
\<close>

definition fs_writeFile :: "node \<Rightarrow> string \<Rightarrow> (error \<times> node) + node" where
  "fs_writeFile fs data =
     (case fs of
        File ct r w \<Rightarrow>
          (case w of
             WriteOk \<Rightarrow> Inr (File data r w)
           | WriteDenied \<Rightarrow> Inl (WriteError, File ct r w)
           | WriteTorn n \<Rightarrow> Inl (WriteError, File (take n data) r w))
      | Missing \<Rightarrow> Inr (File data True WriteOk)
      | _ \<Rightarrow> Inl (WriteError, fs))"

definition setEntries :: "node \<Rightarrow> (string \<times> node) list \<Rightarrow> node" where
  "setEntries fs es = (case fs of Dir l old \<Rightarrow> Dir l es | _ \<Rightarrow> fs)"

section \<open>The single-file injector\<close>

datatype logEvent = Warn string | InjectError string error | ScanError string error

text \<open>
  Lines 35--122, the body of the \<^verbatim>\<open>try\<close>: \<open>Inl\<close> is a thrown error together with the
  file as the throw leaves it, \<open>Inr\<close> a returned value with the file and the warnings.
\<close>

definition injectFaviconBody ::
  "cheerio \<Rightarrow> string \<Rightarrow> optionsArg \<Rightarrow> node \<Rightarrow> (error \<times> node) + (bool \<times> node \<times> logEvent list)" where
  "injectFaviconBody c filePath options fs =
     (case fs_stat fs of
        Inl e \<Rightarrow> Inl (e, fs)
      | Inr stat \<Rightarrow>
          if stat \<noteq> IsFile
          then Inr (False, fs, [Warn (''Path is not a file: '' @ filePath)])
          else if startsWith (basename filePath) ''._''
          then Inr (False, fs, [Warn (''Skipping macOS metadata file: '' @ filePath)])
          else
            (let faviconOptions = normalizeOptions options
             in case fs_readFile fs of
                  Inl e \<Rightarrow> Inl (e, fs)
                | Inr text \<Rightarrow>
                    (case load c text of
                       None \<Rightarrow> Inl (ParseError, fs)
                     | Some d \<Rightarrow>
                         if hasFavicon d then Inr (False, fs, [])
                         else
                           (let head = select ''head'' d
                            in if length head = 0
                               then Inr (False, fs, [Warn (''No <head> tag found in '' @ filePath)])
                               else
                                 (let linkTag = buildLinkTag faviconOptions;
                                      d' = appendTo ''head'' (parseFragment c linkTag) d
                                  in case fs_writeFile fs (html c d') of
                                       Inl (e, fs') \<Rightarrow> Inl (e, fs')
                                     | Inr fs' \<Rightarrow> Inr (True, fs', []))))))"

text \<open>Lines 33--127: the \<^verbatim>\<open>catch\<close> logs the error and returns \<^verbatim>\<open>false\<close>.\<close>

definition injectFavicon ::
  "cheerio \<Rightarrow> string \<Rightarrow> optionsArg \<Rightarrow> node \<Rightarrow> bool \<times> node \<times> logEvent list" where
  "injectFavicon c filePath options fs =
     (case injectFaviconBody c filePath options fs of
        Inr r \<Rightarrow> r
      | Inl (e, fs') \<Rightarrow> (False, fs', [InjectError filePath e]))"

section \<open>The directory walker\<close>

record stats =
  total :: int
  injected :: int
  skipped :: int
  failed :: int

definition zeroStats :: stats where
  "zeroStats = \<lparr>total = 0, injected = 0, skipped = 0, failed = 0\<rparr>"

text \<open>Lines 167--170.\<close>

definition addStats :: "stats \<Rightarrow> stats \<Rightarrow> stats" where
  "addStats st sub =
     \<lparr>total = total st + total sub, injected = injected st + injected sub,
      skipped = skipped st + skipped sub, failed = failed st + failed sub\<rparr>"

text \<open>
  The result of the \<^verbatim>\<open>for\<close> loop from some entry on: the error that left the loop (if
  any) with the counters at that moment, the entries as the loop leaves them, and the log.
\<close>

type_synonym scan = "(error option \<times> stats) \<times> (string \<times> node) list \<times> logEvent list"

definition next_item :: "string \<times> node \<Rightarrow> logEvent list \<Rightarrow> scan \<Rightarrow> scan" where
  "next_item e lg r = (case r of (res, es, lg') \<Rightarrow> (res, e # es, lg @ lg'))"

text \<open>
  Lines 135--196. \<open>injectDir\<close> is the function, \<open>scanItems\<close> its \<^verbatim>\<open>for\<close> loop over the
  entries still to visit, with the counters so far.
\<close>

function injectDir :: "cheerio \<Rightarrow> string \<Rightarrow> optionsArg \<Rightarrow> node \<Rightarrow> stats \<times> node \<times> logEvent list"
  and scanItems :: "cheerio \<Rightarrow> string \<Rightarrow> optionsArg \<Rightarrow> (string \<times> node) list \<Rightarrow> stats \<Rightarrow> scan"
where
  "injectDir c dirPath options fs =
     (let st = zeroStats
      in if \<not> fs_pathExists fs
         then (st, fs, [ScanError dirPath DirectoryDoesNotExist])
         else
           (case fs_readdir fs of
              Inl e \<Rightarrow> (st, fs, [ScanError dirPath e])
            | Inr items \<Rightarrow>
                (case scanItems c dirPath options items st of
                   ((None, st'), es', lg) \<Rightarrow> (st', setEntries fs es', lg)
                 | ((Some e, st'), es', lg) \<Rightarrow>
                     (st', setEntries fs es', lg @ [ScanError dirPath e]))))"
| "scanItems c dirPath options [] st = ((None, st), [], [])"
| "scanItems c dirPath options ((item, x) # rest) st =
     (if startsWith item ''._''
      then next_item (item, x) [] (scanItems c dirPath options rest st)
      else
        (let itemPath = path_join dirPath item
         in case fs_stat x of
              Inl e \<Rightarrow> ((Some e, st), (item, x) # rest, [])
            | Inr stat \<Rightarrow>
                if stat = IsDirectory
                then
                  (case injectDir c itemPath options x of
                     (subStats, x', lg) \<Rightarrow>
                       next_item (item, x') lg
                         (scanItems c dirPath options rest (addStats st subStats)))
                else if stat = IsFile \<and> endsWith (toLowerCase itemPath) ''.html''
                then
                  (let st = st\<lparr>total := total st + 1\<rparr>
                   in case injectFavicon c itemPath options x of
                        (result, x', lg) \<Rightarrow>
                          if result
                          then next_item (item, x') lg
                                 (scanItems c dirPath options rest (st\<lparr>injected := injected st + 1\<rparr>))
                          else
                            (case fs_readFile x' of
                               Inl e \<Rightarrow> ((Some e, st), (item, x') # rest, lg)
                             | Inr text \<Rightarrow>
                                 (case load c text of
                                    None \<Rightarrow> ((Some ParseError, st), (item, x') # rest, lg)
                                  | Some d \<Rightarrow>
                                      if hasFavicon d
                                      then next_item (item, x') lg
                                             (scanItems c dirPath options rest (st\<lparr>skipped := skipped st + 1\<rparr>))
                                      else next_item (item, x') lg
                                             (scanItems c dirPath options rest (st\<lparr>failed := failed st + 1\<rparr>)))))
                else next_item (item, x) [] (scanItems c dirPath options rest st)))"
  by pat_completeness auto
termination
  by (relation "measure (\<lambda>v. case v of
                   Inl (c, p, opts, fs) \<Rightarrow> 2 * size fs + 1
                 | Inr (c, p, opts, es, st) \<Rightarrow> 2 * size_list (size_prod (\<lambda>_. 0) size) es)")
     (auto simp: fs_readdir_def split: node.splits if_splits)

declare injectDir.simps [simp del]

text \<open>
  One iteration of the loop, lines 153--188, read off \<open>scanItems\<close>: the error that
  leaves the loop (if any) with the counters at that moment, the entry as the iteration
  leaves it, and what it logged.
\<close>

definition visitItem ::
  "cheerio \<Rightarrow> string \<Rightarrow> optionsArg \<Rightarrow> string \<times> node \<Rightarrow> stats
     \<Rightarrow> (error option \<times> stats) \<times> (string \<times> node) \<times> logEvent list" where
  "visitItem c dirPath options e st =
     (case e of (item, x) \<Rightarrow>
        if startsWith item ''._'' then ((None, st), (item, x), [])
        else
          (let itemPath = path_join dirPath item
           in case fs_stat x of
                Inl er \<Rightarrow> ((Some er, st), (item, x), [])
              | Inr stat \<Rightarrow>
                  if stat = IsDirectory
                  then
                    (case injectDir c itemPath options x of
                       (subStats, x', lg) \<Rightarrow> ((None, addStats st subStats), (item, x'), lg))
                  else if stat = IsFile \<and> endsWith (toLowerCase itemPath) ''.html''
                  then
                    (let st = st\<lparr>total := total st + 1\<rparr>
                     in case injectFavicon c itemPath options x of
                          (result, x', lg) \<Rightarrow>
                            if result
                            then ((None, st\<lparr>injected := injected st + 1\<rparr>), (item, x'), lg)
                            else
                              (case fs_readFile x' of
                                 Inl er \<Rightarrow> ((Some er, st), (item, x'), lg)
                               | Inr text \<Rightarrow>
                                   (case load c text of
                                      None \<Rightarrow> ((Some ParseError, st), (item, x'), lg)
                                    | Some d \<Rightarrow>
                                        if hasFavicon d
                                        then ((None, st\<lparr>skipped := skipped st + 1\<rparr>), (item, x'), lg)
                                        else ((None, st\<lparr>failed := failed st + 1\<rparr>), (item, x'), lg))))
                  else ((None, st), (item, x), [])))"

section \<open>The specification's wording\<close>

text \<open>
  The link tag as the specification writes it:
  \<^verbatim>\<open><link rel="{rel}" href="{path}"[ type="{type}"][ sizes="{sizes}"]>\<close>,
  an optional attribute being present when its value is a non-empty string.
\<close>

definition optAttr :: "string \<Rightarrow> string option \<Rightarrow> string" where
  "optAttr k v =
     (case v of
        Some s \<Rightarrow> if s = [] then [] else '' '' @ k @ ''=\"'' @ s @ ''\"''
      | None \<Rightarrow> [])"

definition specLinkTag :: "faviconOptions \<Rightarrow> string" where
  "specLinkTag fo =
     ''<link rel=\"'' @ rel fo @ ''\" href=\"'' @ path fo @ ''\"''
       @ optAttr ''type'' (ftype fo) @ optAttr ''sizes'' (sizes fo) @ ''>''"

text \<open>The MIME auto-detection table of the specification.\<close>

definition specMimeTable :: "string \<Rightarrow> string option" where
  "specMimeTable =
     map_of [(''.ico'', ''image/x-icon''), (''.png'', ''image/png''),
             (''.svg'', ''image/svg+xml''), (''.jpg'', ''image/jpeg''),
             (''.jpeg'', ''image/jpeg'')]"

text \<open>
  The options as the specification reads them, form by form: left out, the defaults; a
  bare string, the path; an object, each field that is present, the default for
  \<^verbatim>\<open>path\<close> and \<^verbatim>\<open>rel\<close> otherwise. The type is the one supplied when that is a
  non-empty string, else the table's entry for the lower-cased extension of the path.
\<close>

definition specPath :: "optionsArg \<Rightarrow> string" where
  "specPath options =
     (case options of
        Undefined \<Rightarrow> ''/favicon.ico''
      | Str s \<Rightarrow> s
      | Obj ob \<Rightarrow> (case opt_path ob of Some p \<Rightarrow> p | None \<Rightarrow> ''/favicon.ico''))"

definition specRel :: "optionsArg \<Rightarrow> string" where
  "specRel options =
     (case options of
        Undefined \<Rightarrow> ''icon''
      | Str s \<Rightarrow> ''icon''
      | Obj ob \<Rightarrow> (case opt_rel ob of Some r \<Rightarrow> r | None \<Rightarrow> ''icon''))"

definition specType :: "optionsArg \<Rightarrow> string option" where
  "specType options =
     (case (case options of Obj ob \<Rightarrow> opt_type ob | _ \<Rightarrow> None) of
        Some t \<Rightarrow>
          if t \<noteq> [] then Some t else specMimeTable (toLowerCase (extname (specPath options)))
      | None \<Rightarrow> specMimeTable (toLowerCase (extname (specPath options))))"

definition specSizes :: "optionsArg \<Rightarrow> string option" where
  "specSizes options = (case options of Obj ob \<Rightarrow> opt_sizes ob | _ \<Rightarrow> None)"

text \<open>The tag string for given options, and the attributes of the link element it denotes.\<close>

definition specTagText :: "optionsArg \<Rightarrow> string" where
  "specTagText options =
     ''<link rel=\"'' @ specRel options @ ''\" href=\"'' @ specPath options @ ''\"''
       @ optAttr ''type'' (specType options) @ optAttr ''sizes'' (specSizes options) @ ''>''"


text \<open>The three relation values that make a link a favicon link.\<close>

definition faviconRels :: "string option set" where
  "faviconRels = {Some ''icon'', Some ''shortcut icon'', Some ''apple-touch-icon''}"

text \<open>
  A document read as the sequence of its opening tags, closing tags and texts, in
  document order. Two documents with the same sequence are the same tree.
\<close>

datatype token = Open string "(string \<times> string) list" | Close string | Chars string



text \<open>\<open>new\<close> placed immediately before every closing tag of \<open>t\<close>, nothing else moved.\<close>

definition beforeClose :: "string \<Rightarrow> token list \<Rightarrow> token list \<Rightarrow> token list" where
  "beforeClose t new ts = concat (map (\<lambda>k. if k = Close t then new @ [k] else [k]) ts)"

text \<open>
  The texts of the regular files of a tree whose names end in \<^verbatim>\<open>.html\<close>
  (case-insensitively), in listing order, looking only at the entries whose name \<open>keep\<close>
  accepts.
\<close>

fun htmlTexts :: "(string \<Rightarrow> bool) \<Rightarrow> node \<Rightarrow> string list"
  and htmlTextsIn :: "(string \<Rightarrow> bool) \<Rightarrow> (string \<times> node) list \<Rightarrow> string list"
where
  "htmlTexts keep (Dir l es) = htmlTextsIn keep es"
| "htmlTexts keep (File ct r w) = []"
| "htmlTexts keep Special = []"
| "htmlTexts keep Missing = []"
| "htmlTextsIn keep [] = []"
| "htmlTextsIn keep ((name, x) # es) =
     (if keep name
      then (case x of
              File ct r w \<Rightarrow> if endsWith (toLowerCase name) ''.html'' then [ct] else []
            | _ \<Rightarrow> htmlTexts keep x)
      else [])
     @ htmlTextsIn keep es"

text \<open>Every entry name, and the names the walker does not skip.\<close>

definition anyName :: "string \<Rightarrow> bool" where
  "anyName name = True"

definition visible :: "string \<Rightarrow> bool" where
  "visible name = (\<not> startsWith name ''._'')"

text \<open>A file text that already contains a favicon link, per the presence check.\<close>

definition carriesFavicon :: "cheerio \<Rightarrow> string \<Rightarrow> bool" where
  "carriesFavicon c text = (case load c text of Some d \<Rightarrow> hasFavicon d | None \<Rightarrow> False)"

text \<open>
  A tree on which the walk meets no input/output or parse error: every directory it
  enters can be listed, every entry it looks at resolves, every \<^verbatim>\<open>.html\<close> file it
  counts can be read and parsed, and one without a favicon link has a head element (which
  the parser guarantees) and can be written.
\<close>

fun errorFree :: "cheerio \<Rightarrow> node \<Rightarrow> bool"
  and errorFreeIn :: "cheerio \<Rightarrow> (string \<times> node) list \<Rightarrow> bool"
where
  "errorFree c (Dir l es) = (l \<and> errorFreeIn c es)"
| "errorFree c (File ct r w) = False"
| "errorFree c Special = False"
| "errorFree c Missing = False"
| "errorFreeIn c [] = True"
| "errorFreeIn c ((name, x) # es) =
     ((startsWith name ''._'' \<or>
       (case x of
          File ct r w \<Rightarrow>
            endsWith (toLowerCase name) ''.html'' \<longrightarrow>
              r \<and> (case load c ct of
                     None \<Rightarrow> False
                   | Some d \<Rightarrow> hasFavicon d \<or> (select ''head'' d \<noteq> [] \<and> w = WriteOk))
        | Dir l es' \<Rightarrow> errorFree c x
        | Special \<Rightarrow> True
        | Missing \<Rightarrow> False))
      \<and> errorFreeIn c es)"

text \<open>The counters the specification expects for a list of \<^verbatim>\<open>.html\<close> file texts.\<close>

definition tally :: "cheerio \<Rightarrow> string list \<Rightarrow> stats" where
  "tally c texts =
     (let n = int (length texts); k = int (length (filter (carriesFavicon c) texts))
      in \<lparr>total = n, injected = n - k, skipped = k, failed = 0\<rparr>)"

text \<open>The name of a directory entry: not empty and without a separator.\<close>

definition entryName :: "string \<Rightarrow> bool" where
  "entryName item = (item \<noteq> [] \<and> CHR ''/'' \<notin> set item)"

fun entryNames :: "node \<Rightarrow> bool"
  and entryNamesIn :: "(string \<times> node) list \<Rightarrow> bool"
where
  "entryNames (Dir l es) = entryNamesIn es"
| "entryNames (File ct r w) = True"
| "entryNames Special = True"
| "entryNames Missing = True"
| "entryNamesIn [] = True"
| "entryNamesIn ((name, x) # es) = (entryName name \<and> entryNames x \<and> entryNamesIn es)"

text \<open>The invariants of the counters.\<close>

definition bounded :: "stats \<Rightarrow> bool" where
  "bounded st =
     (0 \<le> total st \<and> 0 \<le> injected st \<and> 0 \<le> skipped st \<and> 0 \<le> failed st \<and>
      injected st + skipped st + failed st \<le> total st)"

definition exact :: "stats \<Rightarrow> bool" where
  "exact st = (injected st + skipped st + failed st = total st)"

text \<open>
  No directory scan of the log was left by an error of the re-read or re-parse of lines
  179--180, the only throws between counting a file and classifying it.
\<close>

definition uninterrupted :: "logEvent list \<Rightarrow> bool" where
  "uninterrupted lg = (\<forall>q. ScanError q ReadError \<notin> set lg \<and> ScanError q ParseError \<notin> set lg)"

section \<open>Sample data\<close>

text \<open>
  The HTML library on the documents of the examples: \<open>sampleLoad\<close> and \<open>sampleFragment\<close>
  list what the parser returns for the texts involved (it is applied to no other text
  there), \<open>serialize\<close> writes a tree back the way \<^verbatim>\<open>$.html()\<close> does for trees without
  characters that need escaping.
\<close>

fun serialize :: "dnode \<Rightarrow> string" where
  "serialize (Element n a cs) =
     ''<'' @ n @ concat (map (\<lambda>(k, v). '' '' @ k @ ''=\"'' @ v @ ''\"'') a) @ ''>''
       @ (if n = ''link'' then [] else concat (map serialize cs) @ ''</'' @ n @ ''>'')"
| "serialize (Text s) = s"

definition plainText :: string where
  "plainText = ''<html><head></head><body></body></html>''"

definition plainDoc :: document where
  "plainDoc = [Element ''html'' [] [Element ''head'' [] [], Element ''body'' [] []]]"

definition linkedDoc :: "dnode list \<Rightarrow> document" where
  "linkedDoc ls = [Element ''html'' [] [Element ''head'' [] ls, Element ''body'' [] []]]"

definition iconLink :: dnode where
  "iconLink =
     Element ''link'' [(''rel'', ''icon''), (''href'', ''/favicon.ico''), (''type'', ''image/x-icon'')] []"

definition maskLink :: dnode where
  "maskLink =
     Element ''link'' [(''rel'', ''mask-icon''), (''href'', ''/favicon.ico''), (''type'', ''image/x-icon'')] []"

definition maskOptions :: optionsArg where
  "maskOptions = Obj \<lparr>opt_path = None, opt_rel = Some ''mask-icon'', opt_type = None, opt_sizes = None\<rparr>"

definition titledText :: string where
  "titledText = ''<html><head><title>Test</title></head><body></body></html>''"

definition titledDoc :: "dnode list \<Rightarrow> document" where
  "titledDoc ls =
     [Element ''html'' []
        [Element ''head'' [] (Element ''title'' [] [Text ''Test''] # ls), Element ''body'' [] []]]"

definition touchOptions :: optionsArg where
  "touchOptions =
     Obj \<lparr>opt_path = Some ''/t.png'', opt_rel = Some ''apple-touch-icon'', opt_type = None,
          opt_sizes = Some ''180x180''\<rparr>"

definition touchLink :: dnode where
  "touchLink =
     Element ''link''
       [(''rel'', ''apple-touch-icon''), (''href'', ''/t.png''), (''type'', ''image/png''),
        (''sizes'', ''180x180'')] []"

definition docText :: "document \<Rightarrow> string" where
  "docText d = concat (map serialize d)"

definition sampleLoad :: "string \<Rightarrow> document option" where
  "sampleLoad =
     map_of [(plainText, plainDoc),
             (docText (linkedDoc [iconLink]), linkedDoc [iconLink]),
             (docText (linkedDoc [maskLink]), linkedDoc [maskLink]),
             (docText (linkedDoc [maskLink, maskLink]), linkedDoc [maskLink, maskLink]),
             (titledText, titledDoc []),
             (docText (titledDoc [touchLink]), titledDoc [touchLink])]"

definition sampleFragment :: "string \<Rightarrow> dnode list" where
  "sampleFragment s =
     (case map_of [(serialize iconLink, [iconLink]), (serialize maskLink, [maskLink]),
                   (serialize touchLink, [touchLink])] s of
        Some ns \<Rightarrow> ns
      | None \<Rightarrow> [])"

definition sampleCheerio :: cheerio where
  "sampleCheerio = \<lparr>load = sampleLoad, html = docText, parseFragment = sampleFragment\<rparr>"

section \<open>Options and the link tag\<close>

lemma buildLinkTag_spec: "buildLinkTag fo = specLinkTag fo"
  by (simp add: buildLinkTag_def specLinkTag_def optAttr_def truthy_def Let_def split: option.splits)

lemma mimeOfExt_spec: "mimeOfExt e = specMimeTable e"
  by (simp add: mimeOfExt_def specMimeTable_def)

lemma detectType_fields:
  "path (detectType fo) = path fo \<and> rel (detectType fo) = rel fo \<and> sizes (detectType fo) = sizes fo"
  by (simp add: detectType_def Let_def split: option.splits)

text \<open>
  Claim C7. When \<^verbatim>\<open>options.type\<close> is unset (absent, or the empty string), the type
  attribute of the emitted tag is the specification's table applied to the lower-cased
  extension of \<^verbatim>\<open>options.path\<close>; where the table has no entry for that extension
  (or there is no extension) the tag has no type attribute at all.
\<close>

theorem mime_type_detection:
  assumes "\<not> isSet (opt_type (toObject options))"
  shows "buildLinkTag (normalizeOptions options) =
           (let fo = withDefaults (toObject options)
            in ''<link rel=\"'' @ rel fo @ ''\" href=\"'' @ path fo @ ''\"''
                 @ optAttr ''type'' (specMimeTable (toLowerCase (extname (path fo))))
                 @ optAttr ''sizes'' (sizes fo) @ ''>'')"
  using assms
  by (auto simp add: buildLinkTag_spec specLinkTag_def normalizeOptions_def detectType_def Let_def
      mimeOfExt_spec withDefaults_def isSet_def truthy_def optAttr_def split: option.splits)

theorem mime_type_detection_witness:
  "\<not> isSet (opt_type (toObject (Str ''/icons/Logo.PNG''))) \<and>
   buildLinkTag (normalizeOptions (Str ''/icons/Logo.PNG'')) =
     ''<link rel=\"icon\" href=\"/icons/Logo.PNG\" type=\"image/png\">''"
  using mime_type_detection [of "Str ''/icons/Logo.PNG''"]
  by (simp add: toObject_def isSet_def withDefaults_def optAttr_def specMimeTable_def
      extname_def basename_def toLowerCase_def lowerChar_def)

text \<open>
  Claim C8 as stated fails: the empty string is an accepted \<^verbatim>\<open>options\<close> value and
  gives an empty \<^verbatim>\<open>path\<close>; an object whose \<^verbatim>\<open>rel\<close> is the empty string gives an
  empty \<^verbatim>\<open>rel\<close>.
\<close>

theorem empty_path_counterexample:
  "path (normalizeOptions (Str [])) = [] \<and>
   rel (normalizeOptions (Obj \<lparr>opt_path = None, opt_rel = Some [], opt_type = None, opt_sizes = None\<rparr>)) = []"
  by (simp add: normalizeOptions_def detectType_fields withDefaults_def toObject_def)

text \<open>
  Claim C8, amended. The normalised \<^verbatim>\<open>path\<close> and \<^verbatim>\<open>rel\<close> are the values supplied in
  \<^verbatim>\<open>options\<close> where the key is present and the defaults \<^verbatim>\<open>/favicon.ico\<close> and \<^verbatim>\<open>icon\<close>
  where it is absent; so each is non-empty unless the empty string was supplied for it.
\<close>

theorem options_defaults:
  "path (normalizeOptions options) =
     (case opt_path (toObject options) of Some p \<Rightarrow> p | None \<Rightarrow> ''/favicon.ico'') \<and>
   rel (normalizeOptions options) =
     (case opt_rel (toObject options) of Some r \<Rightarrow> r | None \<Rightarrow> ''icon'') \<and>
   (opt_path (toObject options) \<noteq> Some [] \<longrightarrow> path (normalizeOptions options) \<noteq> []) \<and>
   (opt_rel (toObject options) \<noteq> Some [] \<longrightarrow> rel (normalizeOptions options) \<noteq> [])"
  by (auto simp add: normalizeOptions_def detectType_fields withDefaults_def split: option.splits)

theorem options_defaults_witness:
  "opt_path (toObject (Str ''/a.svg'')) \<noteq> Some [] \<and> opt_rel (toObject (Str ''/a.svg'')) \<noteq> Some [] \<and>
   path (normalizeOptions (Str ''/a.svg'')) = ''/a.svg'' \<and> rel (normalizeOptions (Str ''/a.svg'')) = ''icon'' \<and>
   path (normalizeOptions (Str ''/a.svg'')) \<noteq> [] \<and> rel (normalizeOptions (Str ''/a.svg'')) \<noteq> []"
  using options_defaults [of "Str ''/a.svg''"]
  by (simp add: toObject_def)

section \<open>The presence check\<close>

lemma takeWhile_short: "(length (takeWhile P xs) < length xs) = (\<exists>x \<in> set xs. \<not> P x)"
  by (induction xs) auto

lemma relMatches_iff: "relMatches r \<longleftrightarrow> r \<in> faviconRels"
  by (auto simp add: relMatches_def faviconRels_def isSet_def truthy_def)

lemma hasFaviconLoop_from:
  "i \<le> length links \<Longrightarrow>
   hasFaviconLoop links i =
     (let n = length (takeWhile (\<lambda>l. attr l ''rel'' \<notin> faviconRels) (drop i links))
      in (i + n < length links, i + n))"
proof (induction links i rule: hasFaviconLoop.induct)
  case (1 links i)
  show ?case
  proof (cases "i < length links")
    case False
    with "1.prems" have "i = length links" by simp
    then show ?thesis by (simp add: hasFaviconLoop.simps [of links "length links"])
  next
    case True
    then have dr: "drop i links = links ! i # drop (Suc i) links"
      by (simp add: Cons_nth_drop_Suc)
    show ?thesis
    proof (cases "relMatches (attr (links ! i) ''rel'')")
      case hit: True
      with True show ?thesis
        by (simp add: hasFaviconLoop.simps [of links i] dr relMatches_iff)
    next
      case miss: False
      have "hasFaviconLoop links (i + 1) =
              (let n = length (takeWhile (\<lambda>l. attr l ''rel'' \<notin> faviconRels) (drop (i + 1) links))
               in (i + 1 + n < length links, i + 1 + n))"
        using "1.IH" [OF True refl miss] True by simp
      with True miss show ?thesis
        by (simp add: hasFaviconLoop.simps [of links i] dr relMatches_iff Let_def)
    qed
  qed
qed

lemma hasFaviconLoop_0:
  "hasFaviconLoop links 0 =
     (length (takeWhile (\<lambda>l. attr l ''rel'' \<notin> faviconRels) links) < length links,
      length (takeWhile (\<lambda>l. attr l ''rel'' \<notin> faviconRels) links))"
  using hasFaviconLoop_from [of 0 links] by (simp add: Let_def)

lemma hasFavicon_exists:
  "hasFavicon d = (\<exists>l \<in> set (select ''link'' d). attr l ''rel'' \<in> faviconRels)"
  by (simp add: hasFavicon_def hasFaviconLoop_0 takeWhile_short)

text \<open>
  Claim C6. \<open>hasFavicon\<close> is true iff some link element of the document has a
  \<^verbatim>\<open>rel\<close> attribute equal (character by character) to one of \<^verbatim>\<open>icon\<close>,
  \<^verbatim>\<open>shortcut icon\<close>, \<^verbatim>\<open>apple-touch-icon\<close>; and the loop returns at the first such
  link: its counter then equals the number of links before the first hit.
\<close>

theorem hasFavicon_iff:
  "hasFavicon d = (\<exists>l \<in> set (select ''link'' d). attr l ''rel'' \<in> faviconRels) \<and>
   snd (hasFaviconLoop (select ''link'' d) 0) =
     length (takeWhile (\<lambda>l. attr l ''rel'' \<notin> faviconRels) (select ''link'' d))"
  by (simp add: hasFavicon_def hasFaviconLoop_0 takeWhile_short)

theorem hasFavicon_iff_witness:
  "hasFavicon (linkedDoc [maskLink, iconLink, iconLink]) \<and>
   snd (hasFaviconLoop (select ''link'' (linkedDoc [maskLink, iconLink, iconLink])) 0) = 1"
  using hasFavicon_iff [of "linkedDoc [maskLink, iconLink, iconLink]"]
  by (simp add: select_def linkedDoc_def maskLink_def iconLink_def faviconRels_def)

section \<open>The single-file injector: results\<close>

lemma beforeClose_Nil [simp]: "beforeClose t new [] = []"
  by (simp add: beforeClose_def)

lemma beforeClose_Cons [simp]:
  "beforeClose t new (k # ks) = (if k = Close t then new @ [k] else [k]) @ beforeClose t new ks"
  by (simp add: beforeClose_def)

lemma beforeClose_append [simp]:
  "beforeClose t new (xs @ ys) = beforeClose t new xs @ beforeClose t new ys"
  by (simp add: beforeClose_def)






lemma injectFavicon_success:
  assumes "load c text = Some d" and "\<not> hasFavicon d" and "select ''head'' d \<noteq> []"
    and "\<not> startsWith (basename p) ''._''"
  shows "injectFavicon c p options (File text True WriteOk) =
           (True,
            File (html c (appendTo ''head'' (parseFragment c (specLinkTag (normalizeOptions options))) d))
              True WriteOk,
            [])"
  using assms
  by (simp add: injectFavicon_def injectFaviconBody_def fs_stat_def fs_readFile_def fs_writeFile_def
      buildLinkTag_spec Let_def)

lemma sample_plain: "load sampleCheerio plainText = Some plainDoc"
  by (simp add: sampleCheerio_def sampleLoad_def)

lemma plain_no_favicon: "\<not> hasFavicon plainDoc"
  by (simp add: hasFavicon_exists select_def plainDoc_def)

lemma plain_head: "select ''head'' plainDoc = [Element ''head'' [] []]"
  by (simp add: select_def plainDoc_def)

lemma default_tag: "specLinkTag (normalizeOptions Undefined) = serialize iconLink"
  by (simp add: specLinkTag_def normalizeOptions_def detectType_def withDefaults_def toObject_def
      isSet_def extname_def basename_def toLowerCase_def lowerChar_def mimeOfExt_def optAttr_def iconLink_def)

lemma sample_append:
  "appendTo ''head'' (parseFragment sampleCheerio (serialize iconLink)) plainDoc = linkedDoc [iconLink]"
  by (simp add: sampleCheerio_def sampleFragment_def appendTo_def plainDoc_def linkedDoc_def)

lemma sample_html: "html sampleCheerio d = docText d"
  by (simp add: sampleCheerio_def)

lemma a_html_name: "\<not> startsWith (basename ''site/a.html'') ''._''"
  by (simp add: startsWith_def basename_def)

lemma tag_text_spec: "buildLinkTag (normalizeOptions options) = specTagText options"
  by (cases options)
     (auto simp add: buildLinkTag_spec specLinkTag_def specTagText_def normalizeOptions_def
        detectType_def withDefaults_def toObject_def specPath_def specRel_def specType_def
        specSizes_def isSet_def truthy_def mimeOfExt_spec optAttr_def Let_def
        split: option.splits)

lemma specLinkTag_text: "specLinkTag (normalizeOptions options) = specTagText options"
  using tag_text_spec [of options] by (simp add: buildLinkTag_spec)



lemma sample_titled: "load sampleCheerio titledText = Some (titledDoc [])"
  by (simp add: sampleCheerio_def sampleLoad_def)
     (simp add: docText_def linkedDoc_def maskLink_def iconLink_def plainText_def titledText_def)

lemma titled_no_favicon: "\<not> hasFavicon (titledDoc [])"
  by (simp add: hasFavicon_exists select_def titledDoc_def)

lemma titled_head: "select ''head'' (titledDoc []) \<noteq> []"
  by (simp add: select_def titledDoc_def)

lemma touch_tag: "specTagText touchOptions = serialize touchLink"
  by (simp add: specTagText_def specRel_def specPath_def specType_def specSizes_def touchOptions_def
      specMimeTable_def extname_def basename_def toLowerCase_def lowerChar_def optAttr_def
      touchLink_def)


lemma touch_fragment: "parseFragment sampleCheerio (serialize touchLink) = [touchLink]"
  by (simp add: sampleCheerio_def sampleFragment_def)
     (simp add: touchLink_def maskLink_def iconLink_def)




text \<open>
  Claim C3 as stated fails in its last part: when the write itself fails after the file
  was truncated, \<open>injectFavicon\<close> returns false and the content has changed.
\<close>

theorem torn_write_counterexample:
  "injectFavicon sampleCheerio ''site/a.html'' Undefined (File plainText True (WriteTorn 0)) =
     (False, File [] True (WriteTorn 0), [InjectError ''site/a.html'' WriteError]) \<and>
   File [] True (WriteTorn 0) \<noteq> File plainText True (WriteTorn 0)"
proof -
  have "File [] True (WriteTorn 0) \<noteq> File plainText True (WriteTorn 0)"
    by (simp add: plainText_def)
  moreover have "injectFavicon sampleCheerio ''site/a.html'' Undefined (File plainText True (WriteTorn 0)) =
     (False, File [] True (WriteTorn 0), [InjectError ''site/a.html'' WriteError])"
    by (simp add: injectFavicon_def injectFaviconBody_def fs_stat_def fs_readFile_def fs_writeFile_def
      sample_plain plain_no_favicon plain_head a_html_name Let_def)
  ultimately show ?thesis by simp
qed

lemma injectFavicon_unchanged:
  assumes "\<not> fst (injectFavicon c p options fs)"
    and "snd (snd (injectFavicon c p options fs)) \<noteq> [InjectError p WriteError]"
  shows "fst (snd (injectFavicon c p options fs)) = fs"
  using assms
  by (auto simp add: injectFavicon_def injectFaviconBody_def fs_writeFile_def fs_stat_def Let_def
      split: sum.splits option.splits if_splits node.splits writeMode.splits prod.splits)

text \<open>
  Claim C3, amended. \<open>injectFavicon\<close> never raises: an error thrown while stating,
  reading, parsing or writing is caught, logged and turned into the result false; and
  whenever it returns false for any reason other than a failed write, the file is
  unchanged.
\<close>

theorem injectFavicon_catches:
  "(case injectFaviconBody c p options fs of
      Inl (e, fs') \<Rightarrow> injectFavicon c p options fs = (False, fs', [InjectError p e])
    | Inr r \<Rightarrow> injectFavicon c p options fs = r) \<and>
   (\<not> fst (injectFavicon c p options fs) \<and>
      snd (snd (injectFavicon c p options fs)) \<noteq> [InjectError p WriteError]
    \<longrightarrow> fst (snd (injectFavicon c p options fs)) = fs)"
  using injectFavicon_unchanged [of c p options fs]
  by (simp add: injectFavicon_def split: sum.splits prod.splits)


theorem injectFavicon_catches_witness:
  "injectFaviconBody sampleCheerio ''a.html'' Undefined Missing = Inl (StatError, Missing) \<and>
   injectFavicon sampleCheerio ''a.html'' Undefined Missing = (False, Missing, [InjectError ''a.html'' StatError])"
  using injectFavicon_catches [of sampleCheerio "''a.html''" Undefined Missing]
  by (simp add: injectFaviconBody_def fs_stat_def)

lemma selectNode_appendNode:
  "selectNode h y \<noteq> [] \<Longrightarrow> set (select t new) \<subseteq> set (selectNode t (appendNode h new y))"
proof (induction y)
  case (Element n a cs)
  show ?case
  proof (cases "n = h")
    case True
    then show ?thesis by (auto simp add: select_def)
  next
    case False
    with Element.prems obtain y where y: "y \<in> set cs" "selectNode h y \<noteq> []"
      by auto
    then have "set (select t new) \<subseteq> set (selectNode t (appendNode h new y))"
      using Element.IH by blast
    with y(1) False show ?thesis by auto
  qed
next
  case (Text s)
  then show ?case by simp
qed

lemma select_appendTo:
  assumes "select h d \<noteq> []"
  shows "set (select t new) \<subseteq> set (select t (appendTo h new d))"
proof -
  from assms obtain y where y: "y \<in> set d" "selectNode h y \<noteq> []"
    by (auto simp add: select_def)
  then have "set (select t new) \<subseteq> set (selectNode t (appendNode h new y))"
    by (simp add: selectNode_appendNode)
  with y(1) show ?thesis by (auto simp add: select_def appendTo_def)
qed

lemma injectFavicon_present:
  assumes "load c text = Some d" and "hasFavicon d" and "\<not> startsWith (basename p) ''._''"
  shows "injectFavicon c p options (File text True w) = (False, File text True w, [])"
  using assms
  by (simp add: injectFavicon_def injectFaviconBody_def fs_stat_def fs_readFile_def Let_def)

lemma linked_icon: "load sampleCheerio (docText (linkedDoc [iconLink])) = Some (linkedDoc [iconLink])"
  by (simp add: sampleCheerio_def sampleLoad_def)
     (simp add: docText_def linkedDoc_def iconLink_def plainText_def)

lemma mask_tag: "specLinkTag (normalizeOptions maskOptions) = serialize maskLink"
  by (simp add: specLinkTag_def normalizeOptions_def detectType_def withDefaults_def toObject_def maskOptions_def
      isSet_def extname_def basename_def toLowerCase_def lowerChar_def mimeOfExt_def optAttr_def maskLink_def)

lemma mask_fragment: "parseFragment sampleCheerio (serialize maskLink) = [maskLink]"
  by (simp add: sampleCheerio_def sampleFragment_def) (simp add: maskLink_def iconLink_def)

lemma linked_mask: "load sampleCheerio (docText (linkedDoc [maskLink])) = Some (linkedDoc [maskLink])"
  by (simp add: sampleCheerio_def sampleLoad_def)
     (simp add: docText_def linkedDoc_def maskLink_def iconLink_def plainText_def)

lemma mask_no_favicon: "\<not> hasFavicon (linkedDoc [maskLink])"
  by (simp add: hasFavicon_exists select_def linkedDoc_def maskLink_def faviconRels_def)

text \<open>
  Claim C5 as stated fails: \<^verbatim>\<open>rel\<close> is written verbatim and may be any string, but
  the presence check knows three values only. With \<^verbatim>\<open>rel: 'mask-icon'\<close> the second
  call does not find the tag of the first, injects again and returns true.
\<close>

theorem second_call_counterexample:
  "injectFavicon sampleCheerio ''site/a.html'' maskOptions (File plainText True WriteOk) =
     (True, File (docText (linkedDoc [maskLink])) True WriteOk, []) \<and>
   injectFavicon sampleCheerio ''site/a.html'' maskOptions (File (docText (linkedDoc [maskLink])) True WriteOk) =
     (True, File (docText (linkedDoc [maskLink, maskLink])) True WriteOk, [])"
proof -
  have h: "select ''head'' plainDoc \<noteq> []" by (simp add: plain_head)
  have h2: "select ''head'' (linkedDoc [maskLink]) \<noteq> []" by (simp add: select_def linkedDoc_def)
  have a1: "appendTo ''head'' [maskLink] plainDoc = linkedDoc [maskLink]"
    by (simp add: appendTo_def plainDoc_def linkedDoc_def)
  have a2: "appendTo ''head'' [maskLink] (linkedDoc [maskLink]) = linkedDoc [maskLink, maskLink]"
    by (simp add: appendTo_def linkedDoc_def maskLink_def)
  show ?thesis
    using injectFavicon_success [OF sample_plain plain_no_favicon h a_html_name, of maskOptions]
      injectFavicon_success [OF linked_mask mask_no_favicon h2 a_html_name, of maskOptions]
    by (simp add: mask_tag mask_fragment sample_html a1 a2)
qed

lemma titled_touch:
  "load sampleCheerio (docText (titledDoc [touchLink])) = Some (titledDoc [touchLink])"
  by (simp add: sampleCheerio_def sampleLoad_def)
     (simp add: docText_def linkedDoc_def titledDoc_def touchLink_def maskLink_def iconLink_def
        plainText_def titledText_def)

lemma titled_append: "appendTo ''head'' [touchLink] (titledDoc []) = titledDoc [touchLink]"
  by (simp add: appendTo_def titledDoc_def)

text \<open>
  Claim C5, amended. Two calls in succession, with the same options, on a regular file
  that can be read and written, whose base name does not begin with \<^verbatim>\<open>._\<close> and whose
  document has a head element and no favicon link, return true, then false, provided
  that the configured \<^verbatim>\<open>rel\<close> is one of \<^verbatim>\<open>icon\<close>, \<^verbatim>\<open>shortcut icon\<close>,
  \<^verbatim>\<open>apple-touch-icon\<close>; that the HTML library parses the tag string into markup
  holding a link element whose \<^verbatim>\<open>rel\<close> attribute is the configured one; and that the
  library, parsing the text the first call wrote, finds again every link element of the
  written tree with its \<^verbatim>\<open>rel\<close> attribute.
\<close>

theorem injectFavicon_twice:
  assumes "load c text = Some d" and "\<not> hasFavicon d" and "select ''head'' d \<noteq> []"
    and "\<not> startsWith (basename p) ''._''"
    and "specRel options \<in> {''icon'', ''shortcut icon'', ''apple-touch-icon''}"
    and "\<exists>l \<in> set (select ''link'' (parseFragment c (specTagText options))).
           attr l ''rel'' = Some (specRel options)"
    and "load c (html c (appendTo ''head'' (parseFragment c (specTagText options)) d)) = Some d''"
    and "\<forall>l \<in> set (select ''link'' (appendTo ''head'' (parseFragment c (specTagText options)) d)).
           \<exists>l' \<in> set (select ''link'' d''). attr l' ''rel'' = attr l ''rel''"
  shows "\<exists>fs'. injectFavicon c p options (File text True WriteOk) = (True, fs', []) \<and>
               injectFavicon c p options fs' = (False, fs', [])"
proof -
  let ?new = "parseFragment c (specTagText options)"
  let ?d' = "appendTo ''head'' ?new d"
  let ?fs' = "File (html c ?d') True WriteOk"
  have first: "injectFavicon c p options (File text True WriteOk) = (True, ?fs', [])"
    using injectFavicon_success [OF assms(1-4), of options] by (simp add: specLinkTag_text)
  from assms(6) obtain l where l: "l \<in> set (select ''link'' ?new)"
    "attr l ''rel'' = Some (specRel options)" by blast
  from l(1) select_appendTo [OF assms(3), of "''link''" ?new]
  have "l \<in> set (select ''link'' ?d')" by blast
  with assms(8) obtain l' where l': "l' \<in> set (select ''link'' d'')" "attr l' ''rel'' = attr l ''rel''"
    by blast
  from l' l(2) assms(5) have "attr l' ''rel'' \<in> faviconRels"
    by (auto simp add: faviconRels_def)
  with l'(1) have "hasFavicon d''"
    by (auto simp add: hasFavicon_exists)
  then have "injectFavicon c p options ?fs' = (False, ?fs', [])"
    using injectFavicon_present [OF assms(7) _ assms(4)] by blast
  with first show ?thesis by blast
qed

theorem injectFavicon_twice_witness:
  "injectFavicon sampleCheerio ''site/a.html'' touchOptions (File titledText True WriteOk) =
     (True, File (docText (titledDoc [touchLink])) True WriteOk, []) \<and>
   injectFavicon sampleCheerio ''site/a.html'' touchOptions
       (File (docText (titledDoc [touchLink])) True WriteOk) =
     (False, File (docText (titledDoc [touchLink])) True WriteOk, [])"
proof -
  have r: "specRel touchOptions \<in> {''icon'', ''shortcut icon'', ''apple-touch-icon''}"
    by (simp add: specRel_def touchOptions_def)
  have f: "\<exists>l \<in> set (select ''link'' (parseFragment sampleCheerio (specTagText touchOptions))).
             attr l ''rel'' = Some (specRel touchOptions)"
    by (simp add: touch_tag touch_fragment) (simp add: select_def touchLink_def specRel_def touchOptions_def)
  have t: "load sampleCheerio (html sampleCheerio
             (appendTo ''head'' (parseFragment sampleCheerio (specTagText touchOptions)) (titledDoc []))) =
           Some (titledDoc [touchLink])"
    by (simp add: touch_tag touch_fragment titled_append sample_html titled_touch)
  have k: "\<forall>l \<in> set (select ''link''
                 (appendTo ''head'' (parseFragment sampleCheerio (specTagText touchOptions)) (titledDoc []))).
             \<exists>l' \<in> set (select ''link'' (titledDoc [touchLink])). attr l' ''rel'' = attr l ''rel''"
    by (simp only: touch_tag touch_fragment titled_append) blast
  have first: "injectFavicon sampleCheerio ''site/a.html'' touchOptions (File titledText True WriteOk) =
     (True, File (docText (titledDoc [touchLink])) True WriteOk, [])"
    using injectFavicon_success [OF sample_titled titled_no_favicon titled_head a_html_name, of touchOptions]
    by (simp add: specLinkTag_text touch_tag touch_fragment titled_append sample_html)
  from injectFavicon_twice [OF sample_titled titled_no_favicon titled_head a_html_name r f t k]
  obtain fs' where
    "injectFavicon sampleCheerio ''site/a.html'' touchOptions (File titledText True WriteOk) = (True, fs', [])"
    "injectFavicon sampleCheerio ''site/a.html'' touchOptions fs' = (False, fs', [])"
    by blast
  with first show ?thesis by simp
qed

section \<open>The directory walker: results\<close>

lemma scanItems_Cons:
  "scanItems c p options (e # rest) st =
     (case visitItem c p options e st of
        ((None, st'), e', lg) \<Rightarrow> next_item e' lg (scanItems c p options rest st')
      | ((Some er, st'), e', lg) \<Rightarrow> ((Some er, st'), e' # rest, lg))"
  by (cases e)
     (simp add: visitItem_def Let_def next_item_def split: sum.splits prod.splits option.splits)

lemma scanItems_append:
  "scanItems c p options (pre @ post) st =
     (case scanItems c p options pre st of
        ((None, st'), es', lg) \<Rightarrow>
          (case scanItems c p options post st' of (res, es2, lg2) \<Rightarrow> (res, es' @ es2, lg @ lg2))
      | ((Some er, st'), es', lg) \<Rightarrow> ((Some er, st'), es' @ post, lg))"
proof (induction pre arbitrary: st)
  case Nil
  show ?case by (simp split: prod.splits)
next
  case (Cons e pre)
  show ?case
    by (simp add: scanItems_Cons Cons.IH next_item_def split: prod.splits option.splits)
qed

lemma scanItems_length': "length (fst (snd (scanItems c p options es st))) = length es"
proof (induction es arbitrary: st)
  case Nil
  show ?case by simp
next
  case (Cons e es)
  obtain r st' e' lg where v: "visitItem c p options e st = ((r, st'), e', lg)"
    by (metis prod.exhaust)
  show ?case
  proof (cases r)
    case None
    with v Cons.IH [of st'] show ?thesis
      by (auto simp add: scanItems_Cons next_item_def split: prod.splits)
  next
    case (Some er)
    with v show ?thesis by (simp add: scanItems_Cons)
  qed
qed

lemma scanItems_length:
  "scanItems c p options es st = (res, es', lg) \<Longrightarrow> length es' = length es"
  using scanItems_length' [of c p options es st] by simp

lemma visitItem_sidecar:
  "startsWith item ''._'' \<Longrightarrow> visitItem c p options (item, x) st = ((None, st), (item, x), [])"
  by (simp add: visitItem_def)

lemma scanItems_sidecar:
  assumes "startsWith item ''._''"
  shows "scanItems c p options (pre @ (item, x) # post) st =
           (case scanItems c p options (pre @ post) st of
              (res, es', lg) \<Rightarrow>
                (res, take (length pre) es' @ (item, x) # drop (length pre) es', lg))"
proof -
  obtain r st' es1 lg1 where pre: "scanItems c p options pre st = ((r, st'), es1, lg1)"
    by (metis prod.exhaust)
  then have len: "length es1 = length pre" by (rule scanItems_length)
  show ?thesis
  proof (cases r)
    case None
    obtain res es2 lg2 where post: "scanItems c p options post st' = (res, es2, lg2)"
      by (metis prod.exhaust)
    with pre None len assms show ?thesis
      by (simp add: scanItems_append [of c p options pre] scanItems_Cons visitItem_sidecar next_item_def)
  next
    case (Some er)
    with pre len show ?thesis
      by (simp add: scanItems_append [of c p options pre])
  qed
qed




lemma injectDir_stats:
  "fst (injectDir c p options (Dir True es)) = snd (fst (scanItems c p options es zeroStats))"
  by (simp add: injectDir.simps fs_pathExists_def fs_readdir_def split: prod.splits option.splits)

lemma sample_inject:
  "injectFavicon sampleCheerio ''site/a.html'' Undefined (File plainText True WriteOk) =
     (True, File (docText (linkedDoc [iconLink])) True WriteOk, [])"
proof -
  have h: "select ''head'' plainDoc \<noteq> []" by (simp add: plain_head)
  show ?thesis
    using injectFavicon_success [OF sample_plain plain_no_favicon h a_html_name, of Undefined]
    by (simp add: default_tag sample_append sample_html)
qed

lemma sample_visit:
  "visitItem sampleCheerio ''site'' Undefined (''a.html'', File plainText True WriteOk) st =
     ((None, st\<lparr>total := total st + 1, injected := injected st + 1\<rparr>),
      (''a.html'', File (docText (linkedDoc [iconLink])) True WriteOk), [])"
proof -
  have j: "path_join ''site'' ''a.html'' = ''site/a.html''" by (simp add: path_join_def)
  have e: "endsWith (toLowerCase ''site/a.html'') ''.html''"
    by (simp add: endsWith_def toLowerCase_def lowerChar_def)
  have s: "\<not> startsWith ''a.html'' ''._''" by (simp add: startsWith_def)
  show ?thesis
    by (simp add: visitItem_def s j e fs_stat_def sample_inject Let_def)
qed

lemma sample_dir:
  "injectDir sampleCheerio ''site'' Undefined (Dir True [(''a.html'', File plainText True WriteOk)]) =
     (\<lparr>total = 1, injected = 1, skipped = 0, failed = 0\<rparr>,
      Dir True [(''a.html'', File (docText (linkedDoc [iconLink])) True WriteOk)], [])"
  by (simp add: injectDir.simps fs_pathExists_def fs_readdir_def scanItems_Cons sample_visit
      next_item_def setEntries_def zeroStats_def)

text \<open>
  Claim C9. An entry whose name begins with \<^verbatim>\<open>._\<close> is skipped entirely, whatever it
  is (a file, a directory, or a name that \<^verbatim>\<open>stat\<close> cannot resolve): the counters and
  the log are those of the same directory without the entry, and the entry is left as it
  was.
\<close>

theorem sidecar_entries_skipped:
  assumes "startsWith item ''._''"
  shows "fst (injectDir c p options (Dir l (pre @ (item, x) # post))) =
           fst (injectDir c p options (Dir l (pre @ post))) \<and>
         snd (snd (injectDir c p options (Dir l (pre @ (item, x) # post)))) =
           snd (snd (injectDir c p options (Dir l (pre @ post)))) \<and>
         (\<exists>es'. fst (snd (injectDir c p options (Dir l (pre @ (item, x) # post)))) = Dir l es' \<and>
                length es' = length pre + 1 + length post \<and> es' ! length pre = (item, x))"
proof (cases l)
  case False
  then show ?thesis
    by (simp add: injectDir.simps fs_pathExists_def fs_readdir_def)
next
  case True
  obtain r st' es' lg where sc: "scanItems c p options (pre @ post) zeroStats = ((r, st'), es', lg)"
    by (metis prod.exhaust)
  then have len: "length es' = length pre + length post"
    using scanItems_length by fastforce
  let ?es = "take (length pre) es' @ (item, x) # drop (length pre) es'"
  have sc': "scanItems c p options (pre @ (item, x) # post) zeroStats = ((r, st'), ?es, lg)"
    using sc by (simp add: scanItems_sidecar [OF assms])
  have "?es ! length pre = (item, x)" using len by (simp add: nth_append)
  moreover have "length ?es = length pre + 1 + length post" using len by simp
  ultimately show ?thesis
    using True sc sc'
    by (cases r) (simp_all add: injectDir.simps fs_pathExists_def fs_readdir_def setEntries_def)
qed

theorem sidecar_entries_skipped_witness:
  "startsWith ''._b.html'' ''._'' \<and>
   fst (injectDir sampleCheerio ''site'' Undefined
          (Dir True [(''a.html'', File plainText True WriteOk), (''._b.html'', Missing)])) =
     \<lparr>total = 1, injected = 1, skipped = 0, failed = 0\<rparr>"
proof -
  have s: "startsWith ''._b.html'' ''._''" by (simp add: startsWith_def)
  show ?thesis
    using s sidecar_entries_skipped [OF s, of sampleCheerio "''site''" Undefined True
        "[(''a.html'', File plainText True WriteOk)]" Missing "[]"]
    by (simp add: sample_dir)
qed



lemma uninterrupted_append [simp]:
  "uninterrupted (a @ b) = (uninterrupted a \<and> uninterrupted b)"
  by (auto simp add: uninterrupted_def)

lemma uninterrupted_Nil [simp]: "uninterrupted []"
  by (simp add: uninterrupted_def)

lemma uninterrupted_scan [simp]:
  "uninterrupted [ScanError q e] = (e \<noteq> ReadError \<and> e \<noteq> ParseError)"
  by (auto simp add: uninterrupted_def)

lemma bounded_zero [simp]: "bounded zeroStats" and exact_zero [simp]: "exact zeroStats"
  by (simp_all add: bounded_def exact_def zeroStats_def)

lemma bounded_add: "bounded a \<Longrightarrow> bounded b \<Longrightarrow> bounded (addStats a b)"
  by (simp add: bounded_def addStats_def)

lemma exact_add: "exact a \<Longrightarrow> exact b \<Longrightarrow> exact (addStats a b)"
  by (simp add: exact_def addStats_def)

lemma visitItem_bounded:
  assumes sub: "\<And>q. bounded (fst (injectDir c q options (snd e))) \<and>
                  (uninterrupted (snd (snd (injectDir c q options (snd e)))) \<longrightarrow>
                   exact (fst (injectDir c q options (snd e))))"
    and v: "visitItem c p options e st = ((r, st'), e', lg)"
    and b: "bounded st"
  shows "bounded st' \<and>
         (exact st \<and> uninterrupted lg \<and> r \<noteq> Some ReadError \<and> r \<noteq> Some ParseError \<longrightarrow> exact st')"
proof -
  obtain item x where e: "e = (item, x)" by (cases e)
  obtain sub' x' lg' where d: "injectDir c (path_join p item) options x = (sub', x', lg')"
    by (metis prod.exhaust)
  from sub [of "path_join p item"] e d
  have s: "bounded sub'" "uninterrupted lg' \<longrightarrow> exact sub'" by simp_all
  obtain res y lgf where f: "injectFavicon c (path_join p item) options x = (res, y, lgf)"
    by (metis prod.exhaust)
  show ?thesis
    using v b s
    by (auto simp add: visitItem_def e d f Let_def fs_readFile_def bounded_add exact_add
        split: if_splits sum.splits option.splits node.splits)
       (auto simp add: bounded_def exact_def)
qed


lemma scanItems_bounded:
  assumes sub: "\<And>e q. e \<in> set es \<Longrightarrow>
                  bounded (fst (injectDir c q options (snd e))) \<and>
                  (uninterrupted (snd (snd (injectDir c q options (snd e)))) \<longrightarrow>
                   exact (fst (injectDir c q options (snd e))))"
    and sc: "scanItems c p options es st = ((r, st'), es', lg)"
    and b: "bounded st"
  shows "bounded st' \<and>
         (exact st \<and> uninterrupted lg \<and> r \<noteq> Some ReadError \<and> r \<noteq> Some ParseError \<longrightarrow> exact st')"
  using sub sc b
proof (induction es arbitrary: st r st' es' lg)
  case Nil
  then show ?case by simp
next
  case (Cons e es)
  obtain r1 st1 e1 lg1 where v: "visitItem c p options e st = ((r1, st1), e1, lg1)"
    by (metis prod.exhaust)
  have one: "bounded st1 \<and>
         (exact st \<and> uninterrupted lg1 \<and> r1 \<noteq> Some ReadError \<and> r1 \<noteq> Some ParseError \<longrightarrow> exact st1)"
    using Cons.prems(1) [of e] v Cons.prems(3) by (intro visitItem_bounded) auto
  show ?case
  proof (cases r1)
    case (Some er)
    with v Cons.prems(2) one show ?thesis by (auto simp add: scanItems_Cons)
  next
    case None
    obtain r2 st2 es2 lg2 where rest: "scanItems c p options es st1 = ((r2, st2), es2, lg2)"
      by (metis prod.exhaust)
    have "bounded st2 \<and>
         (exact st1 \<and> uninterrupted lg2 \<and> r2 \<noteq> Some ReadError \<and> r2 \<noteq> Some ParseError \<longrightarrow> exact st2)"
      using Cons.prems(1) rest one by (intro Cons.IH) auto
    with None v rest Cons.prems(2) one show ?thesis
      by (auto simp add: scanItems_Cons next_item_def)
  qed
qed

lemma injectDir_bounded:
  "bounded (fst (injectDir c p options fs)) \<and>
   (uninterrupted (snd (snd (injectDir c p options fs))) \<longrightarrow> exact (fst (injectDir c p options fs)))"
proof (induction fs arbitrary: p)
  case (Dir l es)
  show ?case
  proof (cases l)
    case False
    then show ?thesis by (simp add: injectDir.simps fs_pathExists_def fs_readdir_def)
  next
    case True
    obtain r st' es' lg where sc: "scanItems c p options es zeroStats = ((r, st'), es', lg)"
      by (metis prod.exhaust)
    have "bounded st' \<and>
         (exact zeroStats \<and> uninterrupted lg \<and> r \<noteq> Some ReadError \<and> r \<noteq> Some ParseError \<longrightarrow> exact st')"
    proof (rule scanItems_bounded [OF _ sc])
      fix e q
      assume m: "e \<in> set es"
      have "snd e \<in> Basic_BNFs.snds e" by (cases e) simp
      with m show "bounded (fst (injectDir c q options (snd e))) \<and>
                  (uninterrupted (snd (snd (injectDir c q options (snd e)))) \<longrightarrow>
                   exact (fst (injectDir c q options (snd e))))"
        by (rule Dir.IH)
    qed simp
    with True sc show ?thesis
      by (cases r) (auto simp add: injectDir.simps fs_pathExists_def fs_readdir_def)
  qed
qed (simp_all add: injectDir.simps fs_pathExists_def fs_readdir_def)

lemma locked_visit:
  "visitItem sampleCheerio ''site'' Undefined (''a.html'', File plainText False WriteOk) st =
     ((Some ReadError, st\<lparr>total := total st + 1\<rparr>), (''a.html'', File plainText False WriteOk),
      [InjectError ''site/a.html'' ReadError])"
proof -
  have j: "path_join ''site'' ''a.html'' = ''site/a.html''" by (simp add: path_join_def)
  have e: "endsWith (toLowerCase ''site/a.html'') ''.html''"
    by (simp add: endsWith_def toLowerCase_def lowerChar_def)
  have s: "\<not> startsWith ''a.html'' ''._''" by (simp add: startsWith_def)
  have i: "injectFavicon sampleCheerio ''site/a.html'' Undefined (File plainText False WriteOk) =
             (False, File plainText False WriteOk, [InjectError ''site/a.html'' ReadError])"
    by (simp add: injectFavicon_def injectFaviconBody_def fs_stat_def fs_readFile_def a_html_name Let_def)
  show ?thesis
    by (simp add: visitItem_def s j e fs_stat_def i fs_readFile_def Let_def)
qed

lemma locked_dir:
  "injectDir sampleCheerio ''site'' Undefined (Dir True [(''a.html'', File plainText False WriteOk)]) =
     (\<lparr>total = 1, injected = 0, skipped = 0, failed = 0\<rparr>,
      Dir True [(''a.html'', File plainText False WriteOk)],
      [InjectError ''site/a.html'' ReadError, ScanError ''site'' ReadError])"
  by (simp add: injectDir.simps fs_pathExists_def fs_readdir_def scanItems_Cons locked_visit
      setEntries_def zeroStats_def)

text \<open>
  Claim C10. The counters returned by \<open>injectDir\<close>, on every path including the error
  path, are non-negative and satisfy \<open>injected + skipped + failed \<le> total\<close>; the two
  sides are equal whenever no scan was left by an error of the re-read or re-parse that
  follows a false result of the injector (the only throws between counting a file and
  classifying it).
\<close>

theorem counters_invariant:
  assumes "injectDir c p options fs = (st, fs', lg)"
  shows "0 \<le> total st \<and> 0 \<le> injected st \<and> 0 \<le> skipped st \<and> 0 \<le> failed st \<and>
         injected st + skipped st + failed st \<le> total st \<and>
         ((\<forall>q. ScanError q ReadError \<notin> set lg \<and> ScanError q ParseError \<notin> set lg) \<longrightarrow>
          injected st + skipped st + failed st = total st)"
  using injectDir_bounded [of c p options fs] assms
  by (simp add: bounded_def exact_def uninterrupted_def)

theorem counters_invariant_witness:
  "injectDir sampleCheerio ''site'' Undefined (Dir True [(''a.html'', File plainText True WriteOk)]) =
     (\<lparr>total = 1, injected = 1, skipped = 0, failed = 0\<rparr>,
      Dir True [(''a.html'', File (docText (linkedDoc [iconLink])) True WriteOk)], []) \<and>
   injected \<lparr>total = 1, injected = 1, skipped = 0, failed = 0\<rparr>
     + skipped \<lparr>total = 1, injected = 1, skipped = 0, failed = 0\<rparr>
     + failed \<lparr>total = 1, injected = 1, skipped = 0, failed = 0\<rparr>
     = total \<lparr>total = 1, injected = 1, skipped = 0, failed = 0\<rparr> \<and>
   injectDir sampleCheerio ''site'' Undefined (Dir True [(''a.html'', File plainText False WriteOk)]) =
     (\<lparr>total = 1, injected = 0, skipped = 0, failed = 0\<rparr>,
      Dir True [(''a.html'', File plainText False WriteOk)],
      [InjectError ''site/a.html'' ReadError, ScanError ''site'' ReadError])"
  using counters_invariant [OF sample_dir] counters_invariant [OF locked_dir]
  by (simp add: sample_dir locked_dir)

lemma endsWith_sep:
  assumes "sep \<notin> set suf"
  shows "endsWith (xs @ sep # ys) suf = endsWith ys suf"
proof (cases "length suf \<le> length ys")
  case True
  then show ?thesis by (simp add: endsWith_def Suc_diff_le)
next
  case False
  have "drop (length (xs @ sep # ys) - length suf) (xs @ sep # ys) \<noteq> suf"
  proof
    assume eq: "drop (length (xs @ sep # ys) - length suf) (xs @ sep # ys) = suf"
    from False have "length (xs @ sep # ys) - length suf \<le> length xs" by simp
    then have "sep \<in> set (drop (length (xs @ sep # ys) - length suf) (xs @ sep # ys))"
      by simp
    with eq assms show False by simp
  qed
  with False show ?thesis by (simp add: endsWith_def)
qed

lemma lower_slash: "lowerChar CHR ''/'' = CHR ''/''"
  by (simp add: lowerChar_def)

lemma endsWith_path_join:
  "endsWith (toLowerCase (path_join p item)) ''.html'' = endsWith (toLowerCase item) ''.html''"
  by (simp add: path_join_def toLowerCase_def lower_slash endsWith_sep)

lemma basename_path_join:
  assumes "entryName item"
  shows "basename (path_join p item) = item"
proof -
  from assms obtain ch rest where r: "rev item = ch # rest" "ch \<noteq> CHR ''/''"
    by (cases "rev item") (auto simp add: entryName_def)
  from assms have all: "\<forall>k \<in> set (rev item). k \<noteq> CHR ''/''"
    by (auto simp add: entryName_def)
  have "dropWhile (\<lambda>ch. ch = CHR ''/'') (rev (path_join p item)) = rev item @ CHR ''/'' # rev p"
    using r by (simp add: path_join_def)
  moreover have "takeWhile (\<lambda>ch. ch \<noteq> CHR ''/'') (rev item @ CHR ''/'' # rev p) = rev item"
    using all by (simp add: takeWhile_append2 del: set_rev)
  ultimately show ?thesis by (simp add: basename_def)
qed

lemma tally_Nil: "tally c [] = zeroStats"
  by (simp add: tally_def zeroStats_def)

lemma tally_append: "tally c (a @ b) = addStats (tally c a) (tally c b)"
  by (simp add: tally_def addStats_def Let_def)

lemma addStats_assoc: "addStats (addStats a b) d = addStats a (addStats b d)"
  by (simp add: addStats_def)

lemma addStats_zero: "addStats st zeroStats = st"
  by (simp add: addStats_def zeroStats_def)

lemma visitItem_clean:
  assumes sub: "\<And>q. errorFree c (snd e) \<Longrightarrow> entryNames (snd e) \<Longrightarrow>
                  fst (injectDir c q options (snd e)) = tally c (htmlTexts visible (snd e))"
    and ef: "errorFreeIn c [e]" and en: "entryNamesIn [e]"
  shows "fst (visitItem c p options e st) = (None, addStats st (tally c (htmlTextsIn visible [e])))"
proof -
  obtain item x where e: "e = (item, x)" by (cases e)
  show ?thesis
  proof (cases "startsWith item ''._''")
    case True
    then show ?thesis
      by (simp add: e visitItem_def visible_def tally_Nil addStats_zero)
  next
    case vis: False
    from en e have name: "entryName item" by simp
    have bn: "\<not> startsWith (basename (path_join p item)) ''._''"
      using vis by (simp add: basename_path_join [OF name])
    show ?thesis
    proof (cases x)
      case Missing
      with ef e vis show ?thesis by simp
    next
      case Special
      with e vis show ?thesis
        by (simp add: visitItem_def fs_stat_def visible_def tally_Nil addStats_zero Let_def)
    next
      case (Dir l es)
      with ef en e vis have "errorFree c x" "entryNames x" by simp_all
      with sub [of "path_join p item"] e
      have "fst (injectDir c (path_join p item) options x) = tally c (htmlTexts visible x)" by simp
      with Dir e vis show ?thesis
        by (auto simp add: visitItem_def fs_stat_def visible_def Let_def split: prod.splits)
    next
      case (File ct r w)
      show ?thesis
      proof (cases "endsWith (toLowerCase item) ''.html''")
        case False
        with File e vis show ?thesis
          by (simp add: visitItem_def fs_stat_def visible_def endsWith_path_join tally_Nil
              addStats_zero Let_def)
      next
        case html: True
        with ef e vis File obtain d where d: "r" "load c ct = Some d"
          "hasFavicon d \<or> (select ''head'' d \<noteq> [] \<and> w = WriteOk)"
          by (auto split: option.splits)
        show ?thesis
        proof (cases "hasFavicon d")
          case True
          with d bn have "injectFavicon c (path_join p item) options (File ct True w) =
                            (False, File ct True w, [])"
            by (intro injectFavicon_present) auto
          with True d File e vis html show ?thesis
            by (simp add: visitItem_def fs_stat_def visible_def endsWith_path_join Let_def
                fs_readFile_def tally_def carriesFavicon_def addStats_def)
        next
          case False
          with d bn have "injectFavicon c (path_join p item) options (File ct True WriteOk) =
              (True,
               File (html c (appendTo ''head'' (parseFragment c (specLinkTag (normalizeOptions options))) d))
                 True WriteOk, [])"
            by (intro injectFavicon_success) auto
          with False d File e vis html show ?thesis
            by (simp add: visitItem_def fs_stat_def visible_def endsWith_path_join Let_def
                tally_def carriesFavicon_def addStats_def)
        qed
      qed
    qed
  qed
qed


lemma errorFreeIn_Cons: "errorFreeIn c (e # es) = (errorFreeIn c [e] \<and> errorFreeIn c es)"
  by (cases e) simp

lemma entryNamesIn_Cons: "entryNamesIn (e # es) = (entryNamesIn [e] \<and> entryNamesIn es)"
  by (cases e) simp

lemma htmlTextsIn_Cons: "htmlTextsIn keep (e # es) = htmlTextsIn keep [e] @ htmlTextsIn keep es"
  by (cases e) simp

lemma scanItems_clean:
  assumes sub: "\<And>e q. e \<in> set es \<Longrightarrow> errorFree c (snd e) \<Longrightarrow> entryNames (snd e) \<Longrightarrow>
                  fst (injectDir c q options (snd e)) = tally c (htmlTexts visible (snd e))"
    and ef: "errorFreeIn c es" and en: "entryNamesIn es"
  shows "fst (scanItems c p options es st) = (None, addStats st (tally c (htmlTextsIn visible es)))"
  using sub ef en
proof (induction es arbitrary: st)
  case Nil
  show ?case by (simp add: tally_Nil addStats_zero)
next
  case (Cons e es)
  from Cons.prems(2) have ef1: "errorFreeIn c [e]" and ef2: "errorFreeIn c es"
    using errorFreeIn_Cons [of c e es] by simp_all
  from Cons.prems(3) have en1: "entryNamesIn [e]" and en2: "entryNamesIn es"
    using entryNamesIn_Cons [of e es] by simp_all
  have one: "fst (visitItem c p options e st) = (None, addStats st (tally c (htmlTextsIn visible [e])))"
    using Cons.prems(1) [of e] ef1 en1 by (intro visitItem_clean) auto
  have rest: "fst (scanItems c p options es (addStats st (tally c (htmlTextsIn visible [e])))) =
                (None, addStats (addStats st (tally c (htmlTextsIn visible [e])))
                         (tally c (htmlTextsIn visible es)))"
    using Cons.prems(1) ef2 en2 by (intro Cons.IH) auto
  obtain e1 lg1 where v: "visitItem c p options e st =
      ((None, addStats st (tally c (htmlTextsIn visible [e]))), e1, lg1)"
    using one by (cases "visitItem c p options e st") auto
  show ?case
    using rest
    by (auto simp add: scanItems_Cons v next_item_def htmlTextsIn_Cons [of visible e es] tally_append
        addStats_assoc split: prod.splits)
qed

lemma injectDir_clean:
  "errorFree c fs \<Longrightarrow> entryNames fs \<Longrightarrow>
   fst (injectDir c p options fs) = tally c (htmlTexts visible fs)"
proof (induction fs arbitrary: p)
  case (Dir l es)
  from Dir.prems have l: "l" and ef: "errorFreeIn c es" and en: "entryNamesIn es" by simp_all
  have "fst (scanItems c p options es zeroStats) =
          (None, addStats zeroStats (tally c (htmlTextsIn visible es)))"
  proof (rule scanItems_clean [OF _ ef en])
    fix e q
    assume m: "e \<in> set es" and a: "errorFree c (snd e)" and b: "entryNames (snd e)"
    have "snd e \<in> Basic_BNFs.snds e" by (cases e) simp
    with m show "fst (injectDir c q options (snd e)) = tally c (htmlTexts visible (snd e))"
      using a b by (rule Dir.IH)
  qed
  then show ?case
    using l by (simp add: injectDir_stats addStats_def zeroStats_def)
qed simp_all

lemma carries_plain: "\<not> carriesFavicon sampleCheerio plainText"
  by (simp add: carriesFavicon_def sample_plain plain_no_favicon)

lemma icon_has_favicon: "hasFavicon (linkedDoc [iconLink])"
  by (simp add: hasFavicon_exists select_def linkedDoc_def iconLink_def faviconRels_def)

lemma carries_icon: "carriesFavicon sampleCheerio (docText (linkedDoc [iconLink]))"
  by (simp add: carriesFavicon_def linked_icon icon_has_favicon)

text \<open>
  Claim C1 as stated fails: a regular file named \<^verbatim>\<open>._a.html\<close> is a file whose name
  ends in \<^verbatim>\<open>.html\<close>, no error occurs, and yet it is not counted.
\<close>

theorem sidecar_html_counterexample:
  "errorFree sampleCheerio (Dir True [(''._a.html'', File plainText True WriteOk)]) \<and>
   entryNames (Dir True [(''._a.html'', File plainText True WriteOk)]) \<and>
   length (htmlTexts anyName (Dir True [(''._a.html'', File plainText True WriteOk)])) = 1 \<and>
   length (filter (carriesFavicon sampleCheerio)
             (htmlTexts anyName (Dir True [(''._a.html'', File plainText True WriteOk)]))) = 0 \<and>
   fst (injectDir sampleCheerio ''site'' Undefined (Dir True [(''._a.html'', File plainText True WriteOk)])) =
     \<lparr>total = 0, injected = 0, skipped = 0, failed = 0\<rparr>"
proof -
  have s: "startsWith ''._a.html'' ''._''" by (simp add: startsWith_def)
  have e: "endsWith (toLowerCase ''._a.html'') ''.html''"
    by (simp add: endsWith_def toLowerCase_def lowerChar_def)
  have n: "entryName ''._a.html''" by (simp add: entryName_def)
  show ?thesis
    by (simp add: s e n anyName_def carries_plain injectDir_stats scanItems_Cons visitItem_sidecar
        next_item_def zeroStats_def)
qed

text \<open>
  Claim C1, amended. On a tree on which the walk meets no error, with entry names that
  are file names, let \<open>N\<close> be the number of regular files with a name ending in
  \<^verbatim>\<open>.html\<close> (case-insensitively) that are reached without passing through an entry
  whose name begins with \<^verbatim>\<open>._\<close>, and \<open>k\<close> the number of those that already contain a
  favicon link. Then \<open>injectDir\<close>, with any options, returns \<open>total = N\<close>,
  \<open>injected = N - k\<close>, \<open>skipped = k\<close>, \<open>failed = 0\<close>.
\<close>

theorem injectDir_counts:
  assumes "errorFree c fs" and "entryNames fs"
  shows "fst (injectDir c p options fs) =
           (let n = int (length (htmlTexts visible fs));
                k = int (length (filter (carriesFavicon c) (htmlTexts visible fs)))
            in \<lparr>total = n, injected = n - k, skipped = k, failed = 0\<rparr>)"
  using injectDir_clean [OF assms, of p options] by (simp add: tally_def)

theorem injectDir_counts_witness:
  "errorFree sampleCheerio
     (Dir True [(''a.html'', File plainText True WriteOk),
                (''b.HTML'', File (docText (linkedDoc [iconLink])) True WriteDenied),
                (''._c.html'', Missing)]) \<and>
   entryNames
     (Dir True [(''a.html'', File plainText True WriteOk),
                (''b.HTML'', File (docText (linkedDoc [iconLink])) True WriteDenied),
                (''._c.html'', Missing)]) \<and>
   fst (injectDir sampleCheerio ''site'' Undefined
     (Dir True [(''a.html'', File plainText True WriteOk),
                (''b.HTML'', File (docText (linkedDoc [iconLink])) True WriteDenied),
                (''._c.html'', Missing)])) =
     \<lparr>total = 2, injected = 1, skipped = 1, failed = 0\<rparr>"
proof -
  let ?T = "Dir True [(''a.html'', File plainText True WriteOk),
                (''b.HTML'', File (docText (linkedDoc [iconLink])) True WriteDenied),
                (''._c.html'', Missing)]"
  have s: "startsWith ''._c.html'' ''._''" "\<not> startsWith ''a.html'' ''._''" "\<not> startsWith ''b.HTML'' ''._''"
    by (simp_all add: startsWith_def)
  have e: "endsWith (toLowerCase ''a.html'') ''.html''" "endsWith (toLowerCase ''b.HTML'') ''.html''"
    by (simp_all add: endsWith_def toLowerCase_def lowerChar_def)
  have n: "entryName ''a.html''" "entryName ''b.HTML''" "entryName ''._c.html''"
    by (simp_all add: entryName_def)
  have ef: "errorFree sampleCheerio ?T"
    by (simp add: s e sample_plain plain_no_favicon plain_head linked_icon icon_has_favicon)
  have en: "entryNames ?T" by (simp add: n)
  have t: "htmlTexts visible ?T = [plainText, docText (linkedDoc [iconLink])]"
    by (simp add: visible_def s e)
  have "fst (injectDir sampleCheerio ''site'' Undefined ?T) =
          \<lparr>total = 2, injected = 1, skipped = 1, failed = 0\<rparr>"
    using injectDir_counts [OF ef en, of "''site''" Undefined, unfolded t]
    by (simp add: carries_plain carries_icon)
  with ef en show ?thesis by blast
qed

end
